theory Spec2Isabelle
  imports Complex_Main "HOL-Library.Multiset" "HOL-Library.Word"
begin

section \<open>Data model (types/note.ts)\<close>

text \<open>
  The TypeScript type \<^verbatim>\<open>number\<close> is modelled by \<^typ>\<open>real\<close>: arithmetic is exact,
  there is no rounding, no infinity and no NaN. The fields of \<^verbatim>\<open>Note\<close> carry the
  prefix \<open>n_\<close> (the source's \<^verbatim>\<open>id\<close>, \<^verbatim>\<open>x\<close>, \<^verbatim>\<open>y\<close> would
  hide HOL's \<^const>\<open>id\<close> and the usual variable names), those of
  \<^verbatim>\<open>Partial<Omit<Note, 'id' | 'createdAt'>>\<close> the prefix \<open>u_\<close>, a field left out
  of the partial object being \<^const>\<open>None\<close>.
\<close>

text \<open>
  A JavaScript string is a sequence of UTF-16 code units. \<open>lit\<close> writes the string
  of an ASCII literal: every character becomes the code unit of its code. Property
  names and the texts of console lines, which nothing computes with, stay Isabelle
  strings.
\<close>

type_synonym code_unit = "16 word"

type_synonym jsstring = "code_unit list"

definition lit :: "string \<Rightarrow> jsstring" where
  "lit s = map of_char s"

datatype NoteColor = yellow | pink | blue | green | lavender | coral

record Note =
  n_id :: jsstring
  n_title :: jsstring
  n_content :: jsstring
  n_x :: real
  n_y :: real
  n_width :: real
  n_height :: real
  n_color :: NoteColor
  n_createdAt :: real
  n_updatedAt :: real

record NoteUpdates =
  u_title :: "jsstring option"
  u_content :: "jsstring option"
  u_x :: "real option"
  u_y :: "real option"
  u_width :: "real option"
  u_height :: "real option"
  u_color :: "NoteColor option"
  u_updatedAt :: "real option"

text \<open>The empty partial object \<^verbatim>\<open>{}\<close>.\<close>

definition noUpdates :: NoteUpdates where
  "noUpdates = \<lparr> u_title = None, u_content = None, u_x = None, u_y = None,
                 u_width = None, u_height = None, u_color = None, u_updatedAt = None \<rparr>"

record CanvasState =
  offsetX :: real
  offsetY :: real
  scale :: real

section \<open>The notes hook (useNotes, the variant with remote persistence)\<close>

text \<open>
  The hook's state is the note list; the requests handed to \<^verbatim>\<open>fetch\<close> and the lines
  written by \<^verbatim>\<open>console.error\<close> are recorded in two logs, in the order they happen.
  An \<^verbatim>\<open>async\<close> operation is split at its \<^verbatim>\<open>await\<close>: the part before it runs
  when the operation is called, the part after it (\<open>_settle\<close>) when the promise of
  \<^verbatim>\<open>fetch\<close> settles, on whatever the state is by then. \<^verbatim>\<open>fetch\<close> rejects on a
  network failure only; an HTTP error status resolves the promise.
\<close>

datatype request = GET | POST Note | PATCH jsstring NoteUpdates | DELETE jsstring

datatype fetch_outcome = Rejected | Responded nat

record notes_state =
  noteList :: "Note list"
  requests :: "request list"
  console :: "string list"

text \<open>\<^verbatim>\<open>{ ...note, ...updates, updatedAt: Date.now() }\<close>\<close>

definition merge :: "Note \<Rightarrow> NoteUpdates \<Rightarrow> real \<Rightarrow> Note" where
  "merge note updates now =
     note\<lparr> n_title := (case u_title updates of None \<Rightarrow> n_title note | Some v \<Rightarrow> v),
           n_content := (case u_content updates of None \<Rightarrow> n_content note | Some v \<Rightarrow> v),
           n_x := (case u_x updates of None \<Rightarrow> n_x note | Some v \<Rightarrow> v),
           n_y := (case u_y updates of None \<Rightarrow> n_y note | Some v \<Rightarrow> v),
           n_width := (case u_width updates of None \<Rightarrow> n_width note | Some v \<Rightarrow> v),
           n_height := (case u_height updates of None \<Rightarrow> n_height note | Some v \<Rightarrow> v),
           n_color := (case u_color updates of None \<Rightarrow> n_color note | Some v \<Rightarrow> v),
           n_updatedAt := now \<rparr>"

text \<open>\<^verbatim>\<open>createNote(x, y, color)\<close>; the results of \<^verbatim>\<open>generateId()\<close> and
  \<^verbatim>\<open>Date.now()\<close> are parameters.\<close>

definition newNote :: "jsstring \<Rightarrow> real \<Rightarrow> real \<Rightarrow> real \<Rightarrow> NoteColor \<Rightarrow> Note" where
  "newNote generatedId now x y color =
     \<lparr> n_id = generatedId, n_title = [], n_content = [], n_x = x, n_y = y,
       n_width = 240, n_height = 180, n_color = color,
       n_createdAt = now, n_updatedAt = now \<rparr>"

definition createNote :: "Note \<Rightarrow> notes_state \<Rightarrow> notes_state" where
  "createNote new st =
     st\<lparr> noteList := noteList st @ [new], requests := requests st @ [POST new] \<rparr>"

definition createNote_settle :: "Note \<Rightarrow> fetch_outcome \<Rightarrow> notes_state \<Rightarrow> notes_state" where
  "createNote_settle new outcome st =
     (case outcome of
        Rejected \<Rightarrow>
          st\<lparr> console := console st @ [''Error creating note:''],
              noteList := filter (\<lambda>n. n_id n \<noteq> n_id new) (noteList st) \<rparr>
      | Responded status \<Rightarrow> st)"

definition updateNote :: "jsstring \<Rightarrow> NoteUpdates \<Rightarrow> real \<Rightarrow> notes_state \<Rightarrow> notes_state" where
  "updateNote i updates now st =
     st\<lparr> noteList := map (\<lambda>note. if n_id note = i then merge note updates now else note) (noteList st),
         requests := requests st @ [PATCH i updates] \<rparr>"

definition updateNote_settle :: "fetch_outcome \<Rightarrow> notes_state \<Rightarrow> notes_state" where
  "updateNote_settle outcome st =
     (case outcome of
        Rejected \<Rightarrow> st\<lparr> console := console st @ [''Error updating note:''] \<rparr>
      | Responded status \<Rightarrow> st)"

text \<open>\<^verbatim>\<open>deleteNote\<close> looks the note up in the \<^verbatim>\<open>notes\<close> of its closure, the
  collection of the render that built the callback, and removes it from the collection
  the state updater is given. The two are the same list when the callback is current
  and differ when it is stale, so the closure's list is a parameter of its own. The
  captured \<^verbatim>\<open>noteToDelete\<close> is returned beside the new state.\<close>

definition deleteNote :: "jsstring \<Rightarrow> Note list \<Rightarrow> notes_state \<Rightarrow> Note option \<times> notes_state" where
  "deleteNote i closureNotes st =
     (let noteToDelete = find (\<lambda>n. n_id n = i) closureNotes
      in (noteToDelete,
          st\<lparr> noteList := filter (\<lambda>note. n_id note \<noteq> i) (noteList st),
              requests := requests st @ [DELETE i] \<rparr>))"

definition deleteNote_settle :: "Note option \<Rightarrow> fetch_outcome \<Rightarrow> notes_state \<Rightarrow> notes_state" where
  "deleteNote_settle noteToDelete outcome st =
     (case outcome of
        Rejected \<Rightarrow>
          (let st' = st\<lparr> console := console st @ [''Error deleting note:''] \<rparr>
           in case noteToDelete of
                None \<Rightarrow> st'
              | Some n \<Rightarrow> st'\<lparr> noteList := noteList st' @ [n] \<rparr>)
      | Responded status \<Rightarrow> st)"

text \<open>\<^verbatim>\<open>bringToFront\<close> is the same function in all variants of the hook; it acts on the
  list alone and issues no request.\<close>

definition bringToFront :: "jsstring \<Rightarrow> Note list \<Rightarrow> Note list" where
  "bringToFront i prev =
     (case find (\<lambda>n. n_id n = i) prev of
        None \<Rightarrow> prev
      | Some note \<Rightarrow> filter (\<lambda>n. n_id n \<noteq> i) prev @ [note])"

section \<open>The viewport hook (useCanvas)\<close>

text \<open>
  DOM events and the bounding rectangle are records of the fields the handlers read.
  \<^verbatim>\<open>canvasRef.current\<close> is an optional rectangle, \<^const>\<open>None\<close> when the ref is
  null. The item read from \<^verbatim>\<open>localStorage\<close> is absent (or the empty string, which
  the test \<^verbatim>\<open>if (stored)\<close> treats alike), text that \<^verbatim>\<open>JSON.parse\<close> rejects, or
  text that parses to a viewport record. The handlers are called on the current state:
  the hook rebuilds \<^verbatim>\<open>handleWheel\<close> and registers it again whenever the state
  changes.
\<close>

record MouseEvent =
  clientX :: real
  clientY :: real
  movementX :: real
  movementY :: real
  button :: nat

record WheelEvent = MouseEvent +
  deltaY :: real

record KeyboardEvent =
  code :: jsstring
  repeat :: bool

record DOMRect =
  rect_left :: real
  rect_top :: real

definition MIN_SCALE :: real where "MIN_SCALE = 0.25"
definition MAX_SCALE :: real where "MAX_SCALE = 2"

record useCanvas_state =
  canvasState :: CanvasState
  isPanning :: bool
  isSpacePressed :: bool

definition useCanvas_initial :: useCanvas_state where
  "useCanvas_initial =
     \<lparr> canvasState = \<lparr> offsetX = 0, offsetY = 0, scale = 1 \<rparr>,
       isPanning = False, isSpacePressed = False \<rparr>"

datatype stored_item = NoItem | Unparsable | Parsed CanvasState

definition loadCanvasState :: "stored_item \<Rightarrow> useCanvas_state \<Rightarrow> useCanvas_state" where
  "loadCanvasState stored st =
     (case stored of
        NoItem \<Rightarrow> st
      | Unparsable \<Rightarrow> st
      | Parsed parsed \<Rightarrow> st\<lparr> canvasState := parsed \<rparr>)"

definition handleWheel :: "'a WheelEvent_scheme \<Rightarrow> DOMRect option \<Rightarrow> useCanvas_state \<Rightarrow> useCanvas_state" where
  "handleWheel e current st =
     (let delta = (if deltaY e > 0 then 0.9 else 1.1);
          newScale = min MAX_SCALE (max MIN_SCALE (scale (canvasState st) * delta))
      in case current of
           None \<Rightarrow> st
         | Some rect \<Rightarrow>
             (let mouseX = clientX e - rect_left rect;
                  mouseY = clientY e - rect_top rect;
                  scaleChange = newScale - scale (canvasState st);
                  offsetX' = offsetX (canvasState st)
                           - (mouseX - offsetX (canvasState st)) * (scaleChange / scale (canvasState st));
                  offsetY' = offsetY (canvasState st)
                           - (mouseY - offsetY (canvasState st)) * (scaleChange / scale (canvasState st))
              in st\<lparr> canvasState := \<lparr> offsetX = offsetX', offsetY = offsetY', scale = newScale \<rparr> \<rparr>))"

definition handlePanStart :: "'a MouseEvent_scheme \<Rightarrow> useCanvas_state \<Rightarrow> useCanvas_state" where
  "handlePanStart e st =
     (if isSpacePressed st \<or> button e = 1 then st\<lparr> isPanning := True \<rparr> else st)"

definition handlePanMove :: "'a MouseEvent_scheme \<Rightarrow> useCanvas_state \<Rightarrow> useCanvas_state" where
  "handlePanMove e st =
     (if isPanning st
      then st\<lparr> canvasState := (canvasState st)
                 \<lparr> offsetX := offsetX (canvasState st) + movementX e,
                   offsetY := offsetY (canvasState st) + movementY e \<rparr> \<rparr>
      else st)"

definition handlePanEnd :: "useCanvas_state \<Rightarrow> useCanvas_state" where
  "handlePanEnd st = st\<lparr> isPanning := False \<rparr>"

definition resetView :: "useCanvas_state \<Rightarrow> useCanvas_state" where
  "resetView st = st\<lparr> canvasState := \<lparr> offsetX = 0, offsetY = 0, scale = 1 \<rparr> \<rparr>"

definition handleKeyDown :: "KeyboardEvent \<Rightarrow> useCanvas_state \<Rightarrow> useCanvas_state" where
  "handleKeyDown e st =
     (if code e = lit ''Space'' \<and> \<not> repeat e then st\<lparr> isSpacePressed := True \<rparr> else st)"

definition handleKeyUp :: "KeyboardEvent \<Rightarrow> useCanvas_state \<Rightarrow> useCanvas_state" where
  "handleKeyUp e st =
     (if code e = lit ''Space'' then st\<lparr> isSpacePressed := False, isPanning := False \<rparr> else st)"

datatype canvas_event =
    Load stored_item
  | Wheel WheelEvent "DOMRect option"
  | PanStart MouseEvent
  | PanMove MouseEvent
  | PanEnd
  | ResetView
  | KeyDown KeyboardEvent
  | KeyUp KeyboardEvent

fun canvas_step :: "useCanvas_state \<Rightarrow> canvas_event \<Rightarrow> useCanvas_state" where
  "canvas_step st (Load stored) = loadCanvasState stored st"
| "canvas_step st (Wheel e current) = handleWheel e current st"
| "canvas_step st (PanStart e) = handlePanStart e st"
| "canvas_step st (PanMove e) = handlePanMove e st"
| "canvas_step st PanEnd = handlePanEnd st"
| "canvas_step st ResetView = resetView st"
| "canvas_step st (KeyDown e) = handleKeyDown e st"
| "canvas_step st (KeyUp e) = handleKeyUp e st"

definition canvas_run :: "canvas_event list \<Rightarrow> useCanvas_state \<Rightarrow> useCanvas_state" where
  "canvas_run es st = foldl canvas_step st es"

definition scale_in_range :: "CanvasState \<Rightarrow> bool" where
  "scale_in_range cs = (MIN_SCALE \<le> scale cs \<and> scale cs \<le> MAX_SCALE)"

fun load_in_range :: "canvas_event \<Rightarrow> bool" where
  "load_in_range (Load (Parsed cs)) = scale_in_range cs"
| "load_in_range e = True"

definition screenToWorld :: "CanvasState \<Rightarrow> real \<times> real \<Rightarrow> real \<times> real" where
  "screenToWorld cs p = ((fst p - offsetX cs) / scale cs, (snd p - offsetY cs) / scale cs)"

section \<open>The note component (StickyNote)\<close>

text \<open>
  The component's state is its two flags and its two refs; the note and the viewport
  scale are props. A handler returns the callbacks it calls, in order. The target of a
  mouse event is what the handlers test it for: a button, the resize handle
  (\<^verbatim>\<open>dataset.resize\<close>) or anything else.
\<close>

record DragStart =
  drag_x :: real
  drag_y :: real
  drag_noteX :: real
  drag_noteY :: real

record ResizeStart =
  resize_x :: real
  resize_y :: real
  resize_width :: real
  resize_height :: real

record StickyNote_state =
  isDragging :: bool
  isResizing :: bool
  dragStartRef :: DragStart
  resizeStartRef :: ResizeStart

datatype event_target = ButtonElement | ResizeHandle | OtherElement

datatype callback =
    OnUpdate jsstring NoteUpdates
  | OnDelete jsstring
  | OnSelect Note
  | OnBringToFront jsstring

definition StickyNote_initial :: StickyNote_state where
  "StickyNote_initial =
     \<lparr> isDragging = False, isResizing = False,
       dragStartRef = \<lparr> drag_x = 0, drag_y = 0, drag_noteX = 0, drag_noteY = 0 \<rparr>,
       resizeStartRef = \<lparr> resize_x = 0, resize_y = 0, resize_width = 0, resize_height = 0 \<rparr> \<rparr>"

definition handleMouseDown ::
  "event_target \<Rightarrow> 'a MouseEvent_scheme \<Rightarrow> Note \<Rightarrow> StickyNote_state \<Rightarrow> StickyNote_state \<times> callback list" where
  "handleMouseDown target e note st =
     (if target = ButtonElement then (st, [])
      else if target = ResizeHandle then (st, [])
      else (st\<lparr> isDragging := True,
                dragStartRef := \<lparr> drag_x = clientX e, drag_y = clientY e,
                                  drag_noteX = n_x note, drag_noteY = n_y note \<rparr> \<rparr>,
            [OnBringToFront (n_id note)]))"

definition handleResizeStart ::
  "'a MouseEvent_scheme \<Rightarrow> Note \<Rightarrow> StickyNote_state \<Rightarrow> StickyNote_state \<times> callback list" where
  "handleResizeStart e note st =
     (st\<lparr> isResizing := True,
          resizeStartRef := \<lparr> resize_x = clientX e, resize_y = clientY e,
                              resize_width = n_width note, resize_height = n_height note \<rparr> \<rparr>,
      [OnBringToFront (n_id note)])"

definition handleMouseMove ::
  "'a MouseEvent_scheme \<Rightarrow> jsstring \<Rightarrow> real \<Rightarrow> StickyNote_state \<Rightarrow> callback list" where
  "handleMouseMove e noteId scl st =
     (if isDragging st
      then (let deltaX = (clientX e - drag_x (dragStartRef st)) / scl;
                deltaY = (clientY e - drag_y (dragStartRef st)) / scl
            in [OnUpdate noteId
                  (noUpdates\<lparr> u_x := Some (drag_noteX (dragStartRef st) + deltaX),
                              u_y := Some (drag_noteY (dragStartRef st) + deltaY) \<rparr>)])
      else []) @
     (if isResizing st
      then (let deltaX = (clientX e - resize_x (resizeStartRef st)) / scl;
                deltaY = (clientY e - resize_y (resizeStartRef st)) / scl;
                newWidth = max 180 (resize_width (resizeStartRef st) + deltaX);
                newHeight = max 120 (resize_height (resizeStartRef st) + deltaY)
            in [OnUpdate noteId
                  (noUpdates\<lparr> u_width := Some newWidth, u_height := Some newHeight \<rparr>)])
      else [])"

definition handleMouseUp :: "StickyNote_state \<Rightarrow> StickyNote_state" where
  "handleMouseUp st = st\<lparr> isDragging := False, isResizing := False \<rparr>"

definition handleClick :: "event_target \<Rightarrow> Note \<Rightarrow> StickyNote_state \<Rightarrow> callback list" where
  "handleClick target note st =
     (if target = ButtonElement then []
      else if \<not> isDragging st then [OnSelect note] else [])"

text \<open>The canvas passes \<^verbatim>\<open>updateNote\<close>, \<^verbatim>\<open>deleteNote\<close> and \<^verbatim>\<open>bringToFront\<close> of
  the notes hook as the callbacks, and its own selection handler; the callbacks are
  those of the current render.\<close>

fun perform :: "real \<Rightarrow> notes_state \<Rightarrow> callback \<Rightarrow> notes_state" where
  "perform now st (OnUpdate i updates) = updateNote i updates now st"
| "perform now st (OnDelete i) = snd (deleteNote i (noteList st) st)"
| "perform now st (OnSelect note) = st"
| "perform now st (OnBringToFront i) = st\<lparr> noteList := bringToFront i (noteList st) \<rparr>"

section \<open>The canvas component: search (Canvas.tsx)\<close>

text \<open>
  \<^verbatim>\<open>trim\<close> removes from both ends the code units that are white space or line
  terminators in ECMAScript: tab, vertical tab, form feed, space, no-break space, the
  byte order mark, the other space separators of Unicode, and line feed, carriage
  return, line separator and paragraph separator. \<^verbatim>\<open>includes\<close> (named
  \<open>includes_str\<close>) looks for the query at every position of the string, code unit by
  code unit.
\<close>

definition isWhiteSpace :: "code_unit \<Rightarrow> bool" where
  "isWhiteSpace c =
     (c = 0x0009 \<or> c = 0x000B \<or> c = 0x000C \<or> c = 0x0020 \<or> c = 0x00A0 \<or> c = 0xFEFF \<or>
      c = 0x1680 \<or> (0x2000 \<le> c \<and> c \<le> 0x200A) \<or> c = 0x202F \<or> c = 0x205F \<or>
      c = 0x3000 \<or>
      c = 0x000A \<or> c = 0x000D \<or> c = 0x2028 \<or> c = 0x2029)"

definition trim :: "jsstring \<Rightarrow> jsstring" where
  "trim s = rev (dropWhile isWhiteSpace (rev (dropWhile isWhiteSpace s)))"

fun startsWith :: "jsstring \<Rightarrow> jsstring \<Rightarrow> bool" where
  "startsWith s [] = True"
| "startsWith [] (c # q) = False"
| "startsWith (a # s) (c # q) = (a = c \<and> startsWith s q)"

fun includes_str :: "jsstring \<Rightarrow> jsstring \<Rightarrow> bool" where
  "includes_str [] q = (q = [])"
| "includes_str (a # s) q = (startsWith (a # s) q \<or> includes_str s q)"

text \<open>
  \<^verbatim>\<open>toLowerCase\<close> is the engine's: it maps a string by the case tables of the
  Unicode Character Database, which are not part of the repository. It is a parameter,
  the first, of the functions that call it.
\<close>

definition filteredNotes :: "(jsstring \<Rightarrow> jsstring) \<Rightarrow> Note list \<Rightarrow> jsstring \<Rightarrow> Note list" where
  "filteredNotes toLowerCase nts searchQuery =
     (if trim searchQuery = [] then nts
      else (let query = toLowerCase searchQuery
            in filter (\<lambda>note. includes_str (toLowerCase (n_title note)) query \<or>
                              includes_str (toLowerCase (n_content note)) query) nts))"

record Canvas_state =
  hook :: notes_state
  searchQuery :: jsstring
  selectedNote :: "Note option"

definition onSearchChange :: "jsstring \<Rightarrow> Canvas_state \<Rightarrow> Canvas_state" where
  "onSearchChange q st = st\<lparr> searchQuery := q \<rparr>"

definition displayedNotes :: "(jsstring \<Rightarrow> jsstring) \<Rightarrow> Canvas_state \<Rightarrow> Note list" where
  "displayedNotes toLowerCase st = filteredNotes toLowerCase (noteList (hook st)) (searchQuery st)"

text \<open>For stating properties: the string \<open>q\<close> occurs in the string \<open>s\<close> as a
  substring.\<close>

definition occursIn :: "jsstring \<Rightarrow> jsstring \<Rightarrow> bool" where
  "occursIn q s = (\<exists>pre post. s = pre @ q @ post)"

text \<open>
  For the concrete instances: what \<^verbatim>\<open>toLowerCase\<close> returns for a string made of
  ASCII characters and the Greek capital letter sigma (U+03A3). The letters A to Z
  become a to z and the other ASCII characters stay. A capital sigma becomes the final
  small sigma (U+03C2) when a cased letter comes before it and none comes after it,
  and the small sigma (U+03C3) otherwise; the case-ignorable characters (apostrophe,
  full stop, colon, circumflex, grave accent) are skipped on either side. This is the
  Final_Sigma rule of the Unicode case mapping. The function is used on such strings
  only.
\<close>

definition isCased_sample :: "code_unit \<Rightarrow> bool" where
  "isCased_sample c = ((0x41 \<le> c \<and> c \<le> 0x5A) \<or> (0x61 \<le> c \<and> c \<le> 0x7A) \<or> c = 0x3A3)"

definition isCaseIgnorable_sample :: "code_unit \<Rightarrow> bool" where
  "isCaseIgnorable_sample c = (c = 0x27 \<or> c = 0x2E \<or> c = 0x3A \<or> c = 0x5E \<or> c = 0x60)"

definition casedNext :: "jsstring \<Rightarrow> bool" where
  "casedNext s =
     (case dropWhile isCaseIgnorable_sample s of [] \<Rightarrow> False | c # rest \<Rightarrow> isCased_sample c)"

fun lowerFrom :: "jsstring \<Rightarrow> jsstring \<Rightarrow> jsstring" where
  "lowerFrom before [] = []"
| "lowerFrom before (c # rest) =
     (if c = 0x3A3 then (if casedNext before \<and> \<not> casedNext rest then 0x3C2 else 0x3C3)
      else if 0x41 \<le> c \<and> c \<le> 0x5A then c + 0x20
      else c) # lowerFrom (c # before) rest"

definition toLowerCase_sample :: "jsstring \<Rightarrow> jsstring" where
  "toLowerCase_sample s = lowerFrom [] s"

section \<open>Wire format of the notes hook\<close>

text \<open>
  What travels over the network is untyped (\<^verbatim>\<open>note: any\<close>): an object is a list of
  named properties, and reading a property that is not there gives
  \<^verbatim>\<open>undefined\<close>.
\<close>

datatype jsval = JUndefined | JString jsstring | JNumber real

type_synonym jsobj = "(string \<times> jsval) list"

definition getProp :: "jsobj \<Rightarrow> string \<Rightarrow> jsval" where
  "getProp obj k = (case map_of obj k of None \<Rightarrow> JUndefined | Some v \<Rightarrow> v)"

fun colorName :: "NoteColor \<Rightarrow> jsstring" where
  "colorName yellow = lit ''yellow''"
| "colorName pink = lit ''pink''"
| "colorName blue = lit ''blue''"
| "colorName green = lit ''green''"
| "colorName lavender = lit ''lavender''"
| "colorName coral = lit ''coral''"

text \<open>A \<^verbatim>\<open>Note\<close> as the object literal \<^verbatim>\<open>createNote\<close> builds.\<close>

definition noteObject :: "Note \<Rightarrow> jsobj" where
  "noteObject n =
     [(''id'', JString (n_id n)), (''title'', JString (n_title n)),
      (''content'', JString (n_content n)), (''x'', JNumber (n_x n)), (''y'', JNumber (n_y n)),
      (''width'', JNumber (n_width n)), (''height'', JNumber (n_height n)),
      (''color'', JString (colorName (n_color n))),
      (''createdAt'', JNumber (n_createdAt n)), (''updatedAt'', JNumber (n_updatedAt n))]"

text \<open>The object a receiver reads from the text \<^verbatim>\<open>JSON.stringify\<close> writes: the same
  properties under the same names, those whose value is undefined left out.\<close>

definition JSON_stringify :: "jsobj \<Rightarrow> jsobj" where
  "JSON_stringify obj = filter (\<lambda>kv. snd kv \<noteq> JUndefined) obj"

definition createNote_body :: "Note \<Rightarrow> jsobj" where
  "createNote_body new = JSON_stringify (noteObject new)"

text \<open>The function \<^verbatim>\<open>fetchNotes\<close> maps over the records it receives.\<close>

definition mappedNote :: "jsobj \<Rightarrow> jsobj" where
  "mappedNote note =
     [(''id'', getProp note ''id''), (''title'', getProp note ''title''),
      (''content'', getProp note ''content''), (''x'', getProp note ''x''), (''y'', getProp note ''y''),
      (''width'', getProp note ''width''), (''height'', getProp note ''height''),
      (''color'', getProp note ''color''),
      (''createdAt'', getProp note ''created_at''), (''updatedAt'', getProp note ''updated_at'')]"

text \<open>The field names that are the same on the wire and in memory.\<close>

definition sharedNames :: "string list" where
  "sharedNames = [''id'', ''title'', ''content'', ''x'', ''y'', ''width'', ''height'', ''color'']"

definition wireNoteA :: jsobj where
  "wireNoteA =
     [(''id'', JString (lit ''a'')), (''title'', JString (lit ''Alpha'')),
      (''content'', JString (lit ''first'')),
      (''x'', JNumber 10), (''y'', JNumber 20), (''width'', JNumber 240),
      (''height'', JNumber 180), (''color'', JString (lit ''yellow'')),
      (''created_at'', JNumber 1), (''updated_at'', JNumber 1)]"

section \<open>The note editor (NoteEditor.tsx)\<close>

text \<open>
  The editor's state is its three fields and the timer of the auto-save effect, when
  one is pending: the time it is due and the arguments of the \<^verbatim>\<open>onUpdate\<close> call
  its callback makes.
\<close>

record NoteEditor_state =
  title :: jsstring
  content :: jsstring
  selectedColor :: NoteColor
  timeoutId :: "(nat \<times> jsstring \<times> NoteUpdates) option"

text \<open>The object \<^verbatim>\<open>{ title, content, color: selectedColor }\<close> the timer's callback
  passes to \<^verbatim>\<open>onUpdate\<close>, built from the values the effect closed over.\<close>

definition autoSave_fields :: "NoteEditor_state \<Rightarrow> NoteUpdates" where
  "autoSave_fields ed =
     noUpdates\<lparr> u_title := Some (title ed), u_content := Some (content ed),
                 u_color := Some (selectedColor ed) \<rparr>"

text \<open>A run of the auto-save effect: the cleanup of the previous run clears its timer,
  then, when there is a note, a new timer is set for 300 ms from now.\<close>

definition autoSave_effect :: "nat \<Rightarrow> Note option \<Rightarrow> NoteEditor_state \<Rightarrow> NoteEditor_state" where
  "autoSave_effect now note ed =
     (case note of
        None \<Rightarrow> ed\<lparr> timeoutId := None \<rparr>
      | Some n \<Rightarrow> ed\<lparr> timeoutId := Some (now + 300, n_id n, autoSave_fields ed) \<rparr>)"

text \<open>The state setters. React runs the effect again only when one of its dependencies
  has changed; setting a field to the value it has changes nothing.\<close>

definition setTitle :: "jsstring \<Rightarrow> nat \<Rightarrow> Note option \<Rightarrow> NoteEditor_state \<Rightarrow> NoteEditor_state" where
  "setTitle v now note ed =
     (if v = title ed then ed else autoSave_effect now note (ed\<lparr> title := v \<rparr>))"

definition setContent :: "jsstring \<Rightarrow> nat \<Rightarrow> Note option \<Rightarrow> NoteEditor_state \<Rightarrow> NoteEditor_state" where
  "setContent v now note ed =
     (if v = content ed then ed else autoSave_effect now note (ed\<lparr> content := v \<rparr>))"

definition setSelectedColor :: "NoteColor \<Rightarrow> nat \<Rightarrow> Note option \<Rightarrow> NoteEditor_state \<Rightarrow> NoteEditor_state" where
  "setSelectedColor v now note ed =
     (if v = selectedColor ed then ed else autoSave_effect now note (ed\<lparr> selectedColor := v \<rparr>))"

text \<open>
  The editor as the canvas mounts it: its \<^verbatim>\<open>note\<close> prop is the canvas's selected
  note and its \<^verbatim>\<open>onUpdate\<close> is \<^verbatim>\<open>updateNote\<close> of the notes hook. Time is
  counted in milliseconds. An event is an edit in the editor or a stretch of time in
  which nothing else happens; a timer that comes due in it fires, at its due time, and
  calls \<^verbatim>\<open>onUpdate\<close>. Neither prop changes when the hook's notes change, so the
  effect does not run again after the call.
\<close>

record app_state =
  canvas :: Canvas_state
  editor :: NoteEditor_state
  clock :: nat

datatype app_event = SetTitle jsstring | SetContent jsstring | SetSelectedColor NoteColor | Elapse nat

fun app_step :: "app_state \<Rightarrow> app_event \<Rightarrow> app_state" where
  "app_step st (SetTitle v) =
     st\<lparr> editor := setTitle v (clock st) (selectedNote (canvas st)) (editor st) \<rparr>"
| "app_step st (SetContent v) =
     st\<lparr> editor := setContent v (clock st) (selectedNote (canvas st)) (editor st) \<rparr>"
| "app_step st (SetSelectedColor v) =
     st\<lparr> editor := setSelectedColor v (clock st) (selectedNote (canvas st)) (editor st) \<rparr>"
| "app_step st (Elapse d) =
     (case timeoutId (editor st) of
        None \<Rightarrow> st\<lparr> clock := clock st + d \<rparr>
      | Some (due, i, updates) \<Rightarrow>
          if due \<le> clock st + d
          then st\<lparr> clock := clock st + d,
                   editor := (editor st)\<lparr> timeoutId := None \<rparr>,
                   canvas := (canvas st)\<lparr> hook := updateNote i updates (real due) (hook (canvas st)) \<rparr> \<rparr>
          else st\<lparr> clock := clock st + d \<rparr>)"

definition app_run :: "app_event list \<Rightarrow> app_state \<Rightarrow> app_state" where
  "app_run es st = foldl app_step st es"

text \<open>For stating properties: the fields of the editor after an edit, and whether an
  edit changes the field it sets.\<close>

fun edited :: "app_event \<Rightarrow> NoteEditor_state \<Rightarrow> NoteEditor_state" where
  "edited (SetTitle v) ed = ed\<lparr> title := v \<rparr>"
| "edited (SetContent v) ed = ed\<lparr> content := v \<rparr>"
| "edited (SetSelectedColor v) ed = ed\<lparr> selectedColor := v \<rparr>"
| "edited (Elapse d) ed = ed"

fun changes :: "app_event \<Rightarrow> NoteEditor_state \<Rightarrow> bool" where
  "changes (SetTitle v) ed = (v \<noteq> title ed)"
| "changes (SetContent v) ed = (v \<noteq> content ed)"
| "changes (SetSelectedColor v) ed = (v \<noteq> selectedColor ed)"
| "changes (Elapse d) ed = False"

text \<open>Three notes and a state holding them, for the concrete instances below.\<close>

definition noteA :: Note where
  "noteA = \<lparr> n_id = lit ''a'', n_title = lit ''Alpha'', n_content = lit ''first'', n_x = 10, n_y = 20,
             n_width = 240, n_height = 180, n_color = yellow,
             n_createdAt = 1, n_updatedAt = 1 \<rparr>"

definition noteB :: Note where
  "noteB = \<lparr> n_id = lit ''b'', n_title = lit ''Beta'', n_content = lit ''second'', n_x = 30, n_y = 40,
             n_width = 220, n_height = 160, n_color = blue,
             n_createdAt = 2, n_updatedAt = 2 \<rparr>"

definition noteC :: Note where
  "noteC = \<lparr> n_id = lit ''c'', n_title = lit ''Gamma'', n_content = lit ''third'', n_x = 50, n_y = 60,
             n_width = 240, n_height = 200, n_color = green,
             n_createdAt = 3, n_updatedAt = 3 \<rparr>"

definition stateABC :: notes_state where
  "stateABC = \<lparr> noteList = [noteA, noteB, noteC], requests = [], console = [] \<rparr>"

definition canvasABC :: Canvas_state where
  "canvasABC = \<lparr> hook = stateABC, searchQuery = [], selectedNote = None \<rparr>"

definition noteSigma :: Note where
  "noteSigma = \<lparr> n_id = lit ''s'', n_title = [0x41, 0x3A3], n_content = [], n_x = 0, n_y = 0,
                 n_width = 240, n_height = 180, n_color = yellow,
                 n_createdAt = 4, n_updatedAt = 4 \<rparr>"

definition canvasSigma :: Canvas_state where
  "canvasSigma = \<lparr> hook = \<lparr> noteList = [noteSigma], requests = [], console = [] \<rparr>,
                   searchQuery = [], selectedNote = None \<rparr>"

definition appA :: app_state where
  "appA = \<lparr> canvas = canvasABC\<lparr> selectedNote := Some noteA \<rparr>,
            editor = \<lparr> title = lit ''Alpha'', content = lit ''first'', selectedColor = yellow,
                       timeoutId = None \<rparr>,
            clock = 0 \<rparr>"

section \<open>Stacking order\<close>

lemma find_absent: "i \<notin> n_id ` set prev \<Longrightarrow> find (\<lambda>n. n_id n = i) prev = None"
  by (induction prev) auto

lemma find_present:
  "i \<in> n_id ` set prev \<Longrightarrow> \<exists>note. find (\<lambda>n. n_id n = i) prev = Some note \<and> note \<in> set prev \<and> n_id note = i"
  by (induction prev) auto

lemma find_distinct:
  "distinct (map n_id prev) \<Longrightarrow> note \<in> set prev \<Longrightarrow> find (\<lambda>n. n_id n = n_id note) prev = Some note"
  by (induction prev) (auto simp: image_iff)

lemma filter_absent: "i \<notin> n_id ` set prev \<Longrightarrow> filter (\<lambda>n. n_id n \<noteq> i) prev = prev"
  by (induction prev) auto

lemma mset_filter_distinct:
  "distinct (map n_id prev) \<Longrightarrow> note \<in> set prev \<Longrightarrow>
     mset (filter (\<lambda>n. n_id n \<noteq> n_id note) prev @ [note]) = mset prev"
proof (induction prev)
  case Nil
  then show ?case by simp
next
  case (Cons a prev)
  show ?case
  proof (cases "a = note")
    case True
    with Cons.prems have "n_id note \<notin> n_id ` set prev" by simp
    then have "filter (\<lambda>n. n_id n \<noteq> n_id note) prev = prev" by (rule filter_absent)
    with True show ?thesis by simp
  next
    case False
    with Cons.prems have m: "note \<in> set prev" and d: "distinct (map n_id prev)" by auto
    from Cons.prems m have "n_id a \<noteq> n_id note" by (auto simp: image_iff)
    with Cons.IH [OF d m] show ?thesis by simp
  qed
qed

lemma map_absent:
  "i \<notin> n_id ` set xs \<Longrightarrow> map (\<lambda>note. if n_id note = i then f note else note) xs = xs"
  by (induction xs) auto

lemma bringToFront_absent: "i \<notin> n_id ` set prev \<Longrightarrow> bringToFront i prev = prev"
  by (simp add: bringToFront_def find_absent)

lemma bringToFront_present:
  assumes "i \<in> n_id ` set prev"
  shows "\<exists>note. note \<in> set prev \<and> n_id note = i \<and> find (\<lambda>n. n_id n = i) prev = Some note \<and>
           bringToFront i prev = filter (\<lambda>n. n_id n \<noteq> i) prev @ [note]"
proof -
  from find_present [OF assms] obtain nt where
    f: "find (\<lambda>n. n_id n = i) prev = Some nt" and m: "nt \<in> set prev" and e: "n_id nt = i"
    by blast
  from f have "bringToFront i prev = filter (\<lambda>n. n_id n \<noteq> i) prev @ [nt]"
    by (simp add: bringToFront_def)
  with f m e show ?thesis by blast
qed

lemma bringToFront_others:
  "filter (\<lambda>n. n_id n \<noteq> i) (bringToFront i prev) = filter (\<lambda>n. n_id n \<noteq> i) prev"
proof (cases "i \<in> n_id ` set prev")
  case True
  from bringToFront_present [OF True] show ?thesis by auto
next
  case False
  then show ?thesis by (simp add: bringToFront_absent)
qed

lemma bringToFront_mset:
  assumes "distinct (map n_id prev)"
  shows "mset (bringToFront i prev) = mset prev"
proof (cases "i \<in> n_id ` set prev")
  case True
  from bringToFront_present [OF True] obtain nt where
    m: "nt \<in> set prev" and e: "n_id nt = i" and
    b: "bringToFront i prev = filter (\<lambda>n. n_id n \<noteq> i) prev @ [nt]"
    by blast
  from mset_filter_distinct [OF assms m] e b show ?thesis by simp
next
  case False
  then show ?thesis by (simp add: bringToFront_absent)
qed

lemma bringToFront_twice: "bringToFront i (bringToFront i prev) = bringToFront i prev"
proof (cases "i \<in> n_id ` set prev")
  case True
  from bringToFront_present [OF True] obtain nt where
    e: "n_id nt = i" and
    b: "bringToFront i prev = filter (\<lambda>n. n_id n \<noteq> i) prev @ [nt]"
    by blast
  have f: "find (\<lambda>n. n_id n = i) (filter (\<lambda>n. n_id n \<noteq> i) prev @ [nt]) = Some nt"
    using e by (induction prev) auto
  have "bringToFront i (filter (\<lambda>n. n_id n \<noteq> i) prev @ [nt]) =
          filter (\<lambda>n. n_id n \<noteq> i) prev @ [nt]"
    unfolding bringToFront_def f using e by simp
  then show ?thesis by (simp only: b)
next
  case False
  then show ?thesis by (simp add: bringToFront_absent)
qed

text \<open>
  Claim C7. \<^verbatim>\<open>bringToFront(id)\<close> leaves the collection as it is when no note has the id.
  When a note has the id, that note (with its fields as they are) becomes the last
  element and the notes with other ids keep their relative order; with pairwise distinct
  ids the result holds the same notes as before. Applying it twice gives the same list
  as applying it once.
\<close>

theorem bringToFront_spec:
  "(i \<notin> n_id ` set prev \<longrightarrow> bringToFront i prev = prev) \<and>
   (i \<in> n_id ` set prev \<longrightarrow>
      (\<exists>note. note \<in> set prev \<and> n_id note = i \<and>
              bringToFront i prev = filter (\<lambda>n. n_id n \<noteq> i) prev @ [note])) \<and>
   filter (\<lambda>n. n_id n \<noteq> i) (bringToFront i prev) = filter (\<lambda>n. n_id n \<noteq> i) prev \<and>
   (distinct (map n_id prev) \<longrightarrow> mset (bringToFront i prev) = mset prev) \<and>
   bringToFront i (bringToFront i prev) = bringToFront i prev"
proof -
  have "i \<in> n_id ` set prev \<Longrightarrow>
      \<exists>note. note \<in> set prev \<and> n_id note = i \<and>
              bringToFront i prev = filter (\<lambda>n. n_id n \<noteq> i) prev @ [note]"
    using bringToFront_present by blast
  then show ?thesis
    using bringToFront_absent bringToFront_others bringToFront_mset bringToFront_twice
    by blast
qed

theorem bringToFront_spec_witness:
  "lit ''a'' \<in> n_id ` set [noteA, noteB, noteC] \<and>
   lit ''z'' \<notin> n_id ` set [noteA, noteB, noteC] \<and>
   distinct (map n_id [noteA, noteB, noteC]) \<and>
   bringToFront (lit ''z'') [noteA, noteB, noteC] = [noteA, noteB, noteC] \<and>
   bringToFront (lit ''a'') [noteA, noteB, noteC] = [noteB, noteC, noteA] \<and>
   mset (bringToFront (lit ''a'') [noteA, noteB, noteC]) = mset [noteA, noteB, noteC] \<and>
   bringToFront (lit ''a'') (bringToFront (lit ''a'') [noteA, noteB, noteC]) = [noteB, noteC, noteA]"
  using bringToFront_spec [of "lit ''a''" "[noteA, noteB, noteC]"]
        bringToFront_spec [of "lit ''z''" "[noteA, noteB, noteC]"]
  by (simp add: bringToFront_def noteA_def lit_def noteB_def noteC_def)

section \<open>Updating a note\<close>

text \<open>
  Claim C9. When no note of the collection has the id, \<^verbatim>\<open>updateNote\<close> leaves the
  collection exactly as it is, whatever the partial fields are: the \<^verbatim>\<open>map\<close> rebuilds
  every note unchanged, nothing is written to the console, and the \<^verbatim>\<open>PATCH\<close> request
  is still issued. This holds as well once the request has settled, failed or not.
\<close>

theorem updateNote_absent_id:
  assumes "i \<notin> n_id ` set (noteList st)"
  shows "noteList (updateNote i updates now st) = noteList st \<and>
         console (updateNote i updates now st) = console st \<and>
         noteList (updateNote_settle outcome (updateNote i updates now st)) = noteList st"
proof -
  have "map (\<lambda>note. if n_id note = i then merge note updates now else note) (noteList st) = noteList st"
    using assms by (rule map_absent)
  then show ?thesis
    by (simp add: updateNote_def updateNote_settle_def split: fetch_outcome.splits)
qed

theorem updateNote_absent_id_witness:
  "lit ''z'' \<notin> n_id ` set (noteList stateABC) \<and>
   noteList (updateNote (lit ''z'') (noUpdates\<lparr>u_title := Some (lit ''T'')\<rparr>) 9 stateABC) = [noteA, noteB, noteC] \<and>
   console (updateNote (lit ''z'') (noUpdates\<lparr>u_title := Some (lit ''T'')\<rparr>) 9 stateABC) = [] \<and>
   noteList (updateNote_settle Rejected
              (updateNote (lit ''z'') (noUpdates\<lparr>u_title := Some (lit ''T'')\<rparr>) 9 stateABC)) = [noteA, noteB, noteC]"
  using updateNote_absent_id [of "lit ''z''" stateABC "noUpdates\<lparr>u_title := Some (lit ''T'')\<rparr>" 9 Rejected]
  by (simp add: stateABC_def noteA_def lit_def noteB_def noteC_def)

text \<open>
  Claim C3. When the \<^verbatim>\<open>PATCH\<close> request of an update fails, nothing is rolled back:
  however the request settles, the note list of the state it finds is left as it is and
  no further request is issued; a rejected request only writes one line to the console.
  Right after the update the list is therefore the one the update built, the note with
  the id carrying the merged fields and every other note untouched.
\<close>

theorem updateNote_failure_keeps_change:
  "noteList (updateNote_settle outcome st') = noteList st' \<and>
   requests (updateNote_settle outcome st') = requests st' \<and>
   console (updateNote_settle Rejected st') = console st' @ [''Error updating note:''] \<and>
   noteList (updateNote_settle outcome (updateNote i updates now st)) =
     map (\<lambda>note. if n_id note = i then merge note updates now else note) (noteList st)"
  by (cases outcome) (simp_all add: updateNote_settle_def updateNote_def)

theorem updateNote_failure_keeps_change_witness:
  "noteList (updateNote_settle Rejected
      (updateNote (lit ''b'') (noUpdates\<lparr>u_title := Some (lit ''T''), u_x := Some 7\<rparr>) 9 stateABC)) =
     [noteA, noteB\<lparr>n_title := lit ''T'', n_x := 7, n_updatedAt := 9\<rparr>, noteC] \<and>
   console (updateNote_settle Rejected
      (updateNote (lit ''b'') (noUpdates\<lparr>u_title := Some (lit ''T''), u_x := Some 7\<rparr>) 9 stateABC)) =
     [''Error updating note:'']"
  using updateNote_failure_keeps_change
    [of Rejected "updateNote (lit ''b'') (noUpdates\<lparr>u_title := Some (lit ''T''), u_x := Some 7\<rparr>) 9 stateABC"
        "lit ''b''" "noUpdates\<lparr>u_title := Some (lit ''T''), u_x := Some 7\<rparr>" 9 stateABC]
  by (simp add: updateNote_def stateABC_def noteA_def lit_def noteB_def noteC_def noUpdates_def merge_def)

section \<open>Deleting a note\<close>

text \<open>
  Claim C2, as stated, fails. The first of three notes is deleted, by the callback of
  the current render, and the \<^verbatim>\<open>DELETE\<close> request is rejected while nothing else has
  touched the collection, so that its old position (the front) is still there to take:
  the rollback puts the note at the end.
\<close>

theorem deleteNote_rollback_counterexample:
  "noteList stateABC = [noteA, noteB, noteC] \<and>
   noteList (deleteNote_settle (fst (deleteNote (lit ''a'') (noteList stateABC) stateABC)) Rejected
               (snd (deleteNote (lit ''a'') (noteList stateABC) stateABC))) = [noteB, noteC, noteA] \<and>
   [noteB, noteC, noteA] \<noteq> [noteA, noteB, noteC]"
  by (simp add: deleteNote_def deleteNote_settle_def stateABC_def noteA_def noteB_def noteC_def
        lit_def)

text \<open>
  Claim C2, amended. Take a note of the list the delete callback closed over, the ids
  of that list pairwise distinct; the list is the collection before the deletion when
  the callback is current. \<^verbatim>\<open>deleteNote\<close> captures that note and removes the notes
  with its id from the collection. When the \<^verbatim>\<open>DELETE\<close> request is rejected, the
  captured note, with every field as the captured list has it, is appended at the end
  of whatever the collection is by then. When nothing happened in between, the result
  is the collection the deletion started from without the notes of that id, followed
  by the captured note.
\<close>

theorem deleteNote_rollback_appends:
  assumes "distinct (map n_id closureNotes)" and "note \<in> set closureNotes"
  shows "fst (deleteNote (n_id note) closureNotes st) = Some note \<and>
         noteList (snd (deleteNote (n_id note) closureNotes st)) =
           filter (\<lambda>n. n_id n \<noteq> n_id note) (noteList st) \<and>
         noteList (deleteNote_settle (fst (deleteNote (n_id note) closureNotes st)) Rejected st') =
           noteList st' @ [note] \<and>
         noteList (deleteNote_settle (fst (deleteNote (n_id note) closureNotes st)) Rejected
                     (snd (deleteNote (n_id note) closureNotes st))) =
           filter (\<lambda>n. n_id n \<noteq> n_id note) (noteList st) @ [note]"
proof -
  have "find (\<lambda>n. n_id n = n_id note) closureNotes = Some note"
    using assms by (rule find_distinct)
  then show ?thesis
    by (simp add: deleteNote_def deleteNote_settle_def Let_def)
qed

text \<open>The instance has a current callback deleting the second of three notes, and a
  second call of the callback that deleted the first note, made before either request
  has settled: both rollbacks append the note.\<close>

theorem deleteNote_rollback_appends_witness:
  "distinct (map n_id (noteList stateABC)) \<and> noteB \<in> set (noteList stateABC) \<and>
   fst (deleteNote (lit ''b'') (noteList stateABC) stateABC) = Some noteB \<and>
   noteList (snd (deleteNote (lit ''b'') (noteList stateABC) stateABC)) = [noteA, noteC] \<and>
   noteList (deleteNote_settle (fst (deleteNote (lit ''b'') (noteList stateABC) stateABC)) Rejected
               (snd (deleteNote (lit ''b'') (noteList stateABC) stateABC))) = [noteA, noteC, noteB] \<and>
   noteA \<in> set (noteList stateABC) \<and>
   noteList (snd (deleteNote (lit ''a'') (noteList stateABC) stateABC)) = [noteB, noteC] \<and>
   fst (deleteNote (lit ''a'') (noteList stateABC)
          (snd (deleteNote (lit ''a'') (noteList stateABC) stateABC))) = Some noteA \<and>
   noteList (deleteNote_settle
      (fst (deleteNote (lit ''a'') (noteList stateABC)
              (snd (deleteNote (lit ''a'') (noteList stateABC) stateABC))))
      Rejected
      (deleteNote_settle (fst (deleteNote (lit ''a'') (noteList stateABC) stateABC)) Rejected
         (snd (deleteNote (lit ''a'') (noteList stateABC)
                 (snd (deleteNote (lit ''a'') (noteList stateABC) stateABC))))))
     = [noteB, noteC, noteA, noteA]"
  using deleteNote_rollback_appends
          [of "noteList stateABC" noteB stateABC
              "snd (deleteNote (lit ''b'') (noteList stateABC) stateABC)"]
        deleteNote_rollback_appends
          [of "noteList stateABC" noteA
              "snd (deleteNote (lit ''a'') (noteList stateABC) stateABC)"
              "deleteNote_settle (fst (deleteNote (lit ''a'') (noteList stateABC) stateABC)) Rejected
                 (snd (deleteNote (lit ''a'') (noteList stateABC)
                         (snd (deleteNote (lit ''a'') (noteList stateABC) stateABC))))"]
  by (simp add: deleteNote_def deleteNote_settle_def stateABC_def noteA_def noteB_def noteC_def
        lit_def)

section \<open>The viewport\<close>

lemma handleWheel_scale:
  "scale_in_range (canvasState (handleWheel e (Some rect) st))"
  by (simp add: handleWheel_def scale_in_range_def MIN_SCALE_def MAX_SCALE_def Let_def)

lemma canvas_step_scale:
  assumes "scale_in_range (canvasState st)" and "load_in_range ev"
  shows "scale_in_range (canvasState (canvas_step st ev))"
proof (cases ev)
  case (Load stored)
  with assms show ?thesis
    by (cases stored) (simp_all add: loadCanvasState_def)
next
  case (Wheel e current)
  with assms show ?thesis
    by (cases current) (simp_all add: handleWheel_scale, simp add: handleWheel_def)
qed (use assms in \<open>simp_all add: handlePanStart_def handlePanMove_def handlePanEnd_def
       resetView_def handleKeyDown_def handleKeyUp_def scale_in_range_def
       MIN_SCALE_def MAX_SCALE_def\<close>)

lemma canvas_run_scale:
  "scale_in_range (canvasState st) \<Longrightarrow> \<forall>ev\<in>set es. load_in_range ev \<Longrightarrow>
     scale_in_range (canvasState (canvas_run es st))"
  unfolding canvas_run_def
  by (induction es arbitrary: st) (simp_all add: canvas_step_scale)

lemma zoom_pivot_arith:
  fixes p ofs s s' :: real
  assumes "s \<noteq> 0" and "s' \<noteq> 0"
  shows "(p - (ofs - (p - ofs) * ((s' - s) / s))) / s' = (p - ofs) / s"
  using assms by (simp add: field_simps)


lemma handleWheel_Some:
  "handleWheel e (Some rect) st =
     (let s = scale (canvasState st);
          s' = min MAX_SCALE (max MIN_SCALE (s * (if deltaY e > 0 then 0.9 else 1.1)));
          px = clientX e - rect_left rect;
          py = clientY e - rect_top rect
      in st\<lparr> canvasState :=
              \<lparr> offsetX = offsetX (canvasState st) - (px - offsetX (canvasState st)) * ((s' - s) / s),
                offsetY = offsetY (canvasState st) - (py - offsetY (canvasState st)) * ((s' - s) / s),
                scale = s' \<rparr> \<rparr>)"
  by (simp add: handleWheel_def Let_def)

text \<open>
  Claim C4, as stated, fails. The load effect hands whatever \<^verbatim>\<open>JSON.parse\<close> returns
  to \<^verbatim>\<open>setCanvasState\<close>: a stored record with scale 5 becomes the viewport, and
  panning afterwards keeps that scale.
\<close>

theorem scale_load_counterexample:
  "scale (canvasState (canvas_run
      [Load (Parsed \<lparr> offsetX = 0, offsetY = 0, scale = 5 \<rparr>),
       PanStart \<lparr> clientX = 10, clientY = 10, movementX = 0, movementY = 0, button = 1 \<rparr>,
       PanMove \<lparr> clientX = 13, clientY = 14, movementX = 3, movementY = 4, button = 1 \<rparr>]
      useCanvas_initial)) = 5 \<and>
   \<not> (5 :: real) \<le> 2"
  by (simp add: canvas_run_def loadCanvasState_def handlePanStart_def handlePanMove_def
        useCanvas_initial_def)

text \<open>
  Claim C4, amended. From a state whose scale lies in [0.25, 2], the initial state
  among them, every sequence of wheel, pan, reset and key events, and of loads whose
  stored record (when there is one that parses) has its scale in [0.25, 2], ends in a
  state whose scale lies in [0.25, 2].
\<close>

theorem scale_stays_in_range:
  assumes "1 / 4 \<le> scale (canvasState st) \<and> scale (canvasState st) \<le> 2"
    and "\<forall>ev \<in> set es. load_in_range ev"
  shows "1 / 4 \<le> scale (canvasState (canvas_run es st)) \<and>
         scale (canvasState (canvas_run es st)) \<le> 2"
  using canvas_run_scale [of st es] assms
  by (simp add: scale_in_range_def MIN_SCALE_def MAX_SCALE_def)

theorem scale_stays_in_range_witness:
  "1 / 4 \<le> scale (canvasState useCanvas_initial) \<and> scale (canvasState useCanvas_initial) \<le> 2 \<and>
   load_in_range (Load (Parsed \<lparr> offsetX = 5, offsetY = 6, scale = 2 \<rparr>)) \<and>
   load_in_range (Wheel \<lparr> clientX = 400, clientY = 300, movementX = 0, movementY = 0,
                           button = 0, deltaY = - 100 \<rparr>
                         (Some \<lparr> rect_left = 0, rect_top = 0 \<rparr>)) \<and>
   load_in_range ResetView \<and>
   1 / 4 \<le> scale (canvasState (canvas_run
       [Load (Parsed \<lparr> offsetX = 5, offsetY = 6, scale = 2 \<rparr>),
        Wheel \<lparr> clientX = 400, clientY = 300, movementX = 0, movementY = 0,
                button = 0, deltaY = - 100 \<rparr>
              (Some \<lparr> rect_left = 0, rect_top = 0 \<rparr>),
        ResetView] useCanvas_initial)) \<and>
   scale (canvasState (canvas_run
       [Load (Parsed \<lparr> offsetX = 5, offsetY = 6, scale = 2 \<rparr>),
        Wheel \<lparr> clientX = 400, clientY = 300, movementX = 0, movementY = 0,
                button = 0, deltaY = - 100 \<rparr>
              (Some \<lparr> rect_left = 0, rect_top = 0 \<rparr>),
        ResetView] useCanvas_initial)) \<le> 2"
  using scale_stays_in_range [of useCanvas_initial
       "[Load (Parsed \<lparr> offsetX = 5, offsetY = 6, scale = 2 \<rparr>),
         Wheel \<lparr> clientX = 400, clientY = 300, movementX = 0, movementY = 0,
                 button = 0, deltaY = - 100 \<rparr>
               (Some \<lparr> rect_left = 0, rect_top = 0 \<rparr>),
         ResetView]"]
  by (simp add: useCanvas_initial_def scale_in_range_def MIN_SCALE_def MAX_SCALE_def)

text \<open>
  Claim C5. For a viewport whose scale is not zero and a wheel event at a pointer
  position, the state \<^verbatim>\<open>handleWheel\<close> sets has, under the pointer's screen point
  (the client position relative to the canvas rectangle), the same world coordinate as
  before, the world coordinate being (p - offset) / scale as the canvas computes it
  for a double click. In exact arithmetic the two are equal. (At scale zero the source
  divides by zero, which the model does not represent.)
\<close>

theorem zoom_keeps_pivot:
  assumes "scale (canvasState st) \<noteq> 0"
  shows "screenToWorld (canvasState (handleWheel e (Some rect) st))
           (clientX e - rect_left rect, clientY e - rect_top rect) =
         screenToWorld (canvasState st)
           (clientX e - rect_left rect, clientY e - rect_top rect)"
proof -
  define s where "s = scale (canvasState st)"
  define s' where "s' = min MAX_SCALE (max MIN_SCALE (s * (if deltaY e > 0 then 0.9 else 1.1)))"
  have s: "s \<noteq> 0" using assms by (simp add: s_def)
  have s': "s' \<noteq> 0" by (simp add: s'_def MIN_SCALE_def MAX_SCALE_def min_def max_def)
  show ?thesis
    unfolding screenToWorld_def handleWheel_Some Let_def
    using zoom_pivot_arith [OF s s'] by (simp add: s_def s'_def)
qed

theorem zoom_keeps_pivot_witness:
  "scale (canvasState useCanvas_initial) \<noteq> 0 \<and>
   canvasState (handleWheel
       \<lparr> clientX = 400, clientY = 300, movementX = 0, movementY = 0, button = 0, deltaY = - 100 \<rparr>
       (Some \<lparr> rect_left = 0, rect_top = 0 \<rparr>) useCanvas_initial) =
     \<lparr> offsetX = - 40, offsetY = - 30, scale = 11 / 10 \<rparr> \<and>
   screenToWorld (canvasState (handleWheel
       \<lparr> clientX = 400, clientY = 300, movementX = 0, movementY = 0, button = 0, deltaY = - 100 \<rparr>
       (Some \<lparr> rect_left = 0, rect_top = 0 \<rparr>) useCanvas_initial)) (400, 300) = (400, 300) \<and>
   screenToWorld (canvasState useCanvas_initial) (400, 300) = (400, 300)"
  using zoom_keeps_pivot [of useCanvas_initial
       "\<lparr> clientX = 400, clientY = 300, movementX = 0, movementY = 0, button = 0, deltaY = - 100 \<rparr>"
       "\<lparr> rect_left = 0, rect_top = 0 \<rparr>"]
  by (simp add: useCanvas_initial_def screenToWorld_def handleWheel_def MIN_SCALE_def MAX_SCALE_def)

section \<open>Resizing a note\<close>

lemma resize_update:
  assumes "\<not> isDragging st"
  shows "handleMouseMove e (n_id note) s (fst (handleResizeStart e0 note st)) =
           [OnUpdate (n_id note)
              (noUpdates\<lparr> u_width := Some (max 180 (n_width note + (clientX e - clientX e0) / s)),
                          u_height := Some (max 120 (n_height note + (clientY e - clientY e0) / s)) \<rparr>)]"
  using assms by (simp add: handleMouseMove_def handleResizeStart_def Let_def)

lemma merge_id: "n_id (merge note updates now) = n_id note"
  by (simp add: merge_def)

lemma merge_size:
  "n_width (merge note (noUpdates\<lparr> u_width := Some w, u_height := Some h \<rparr>) now) = w \<and>
   n_height (merge note (noUpdates\<lparr> u_width := Some w, u_height := Some h \<rparr>) now) = h"
  by (simp add: merge_def noUpdates_def)

lemma updateNote_member:
  assumes "nt \<in> set (noteList (updateNote i updates now hs))" and "n_id nt = i"
  shows "\<exists>n0 \<in> set (noteList hs). nt = merge n0 updates now"
proof -
  from assms(1) obtain n0 where m: "n0 \<in> set (noteList hs)"
    and e: "nt = (if n_id n0 = i then merge n0 updates now else n0)"
    by (auto simp: updateNote_def)
  show ?thesis
  proof (cases "n_id n0 = i")
    case True
    with m e show ?thesis by auto
  next
    case False
    with e assms(2) show ?thesis by simp
  qed
qed

lemma resize_applied:
  assumes "nt \<in> set (noteList (foldl (perform now) hs
              [OnUpdate i (noUpdates\<lparr> u_width := Some w, u_height := Some h \<rparr>)]))"
      and "n_id nt = i"
  shows "n_width nt = w \<and> n_height nt = h"
proof -
  from assms(1) have "nt \<in> set (noteList (updateNote i (noUpdates\<lparr> u_width := Some w, u_height := Some h \<rparr>) now hs))"
    by simp
  from updateNote_member [OF this assms(2)] obtain n0 where
    "nt = merge n0 (noUpdates\<lparr> u_width := Some w, u_height := Some h \<rparr>) now" by blast
  then show ?thesis by (simp only: merge_size)
qed

text \<open>
  Claim C6. A resize starts at a pointer-down on the handle of a note of size
  (w0, h0) and is followed by a pointer-move; the screen delta (dx, dy) is the
  pointer's displacement since the start and s, not zero, the scale. Once the update
  the move hands to \<^verbatim>\<open>onUpdate\<close> is applied, the note has width max(180, w0 + dx/s)
  and height max(120, h0 + dy/s), so at least 180 and 120, however negative the
  delta is.
\<close>

theorem resize_clamped:
  assumes "s \<noteq> 0" and "\<not> isDragging st"
    and "nt \<in> set (noteList (foldl (perform now) hs
              (handleMouseMove e (n_id note) s (fst (handleResizeStart e0 note st)))))"
    and "n_id nt = n_id note"
  shows "n_width nt = max 180 (n_width note + (clientX e - clientX e0) / s) \<and>
         n_height nt = max 120 (n_height note + (clientY e - clientY e0) / s) \<and>
         180 \<le> n_width nt \<and> 120 \<le> n_height nt"
proof -
  from assms(3) have "nt \<in> set (noteList (foldl (perform now) hs
      [OnUpdate (n_id note)
         (noUpdates\<lparr> u_width := Some (max 180 (n_width note + (clientX e - clientX e0) / s)),
                     u_height := Some (max 120 (n_height note + (clientY e - clientY e0) / s)) \<rparr>)]))"
    by (simp only: resize_update [OF assms(2)])
  from resize_applied [OF this assms(4)] show ?thesis by simp
qed

theorem resize_clamped_witness:
  "(2 :: real) \<noteq> 0 \<and> \<not> isDragging StickyNote_initial \<and>
   noteA\<lparr> n_width := 180, n_height := 120, n_updatedAt := 9 \<rparr> \<in>
     set (noteList (foldl (perform 9) stateABC
       (handleMouseMove
          \<lparr> clientX = - 900, clientY = - 900, movementX = 0, movementY = 0, button = 0 \<rparr>
          (n_id noteA) 2
          (fst (handleResizeStart
             \<lparr> clientX = 100, clientY = 100, movementX = 0, movementY = 0, button = 0 \<rparr>
             noteA StickyNote_initial))))) \<and>
   n_width noteA + (- 900 - 100) / 2 = - 260 \<and>
   n_width (noteA\<lparr> n_width := 180, n_height := 120, n_updatedAt := 9 \<rparr>) = 180 \<and>
   n_height (noteA\<lparr> n_width := 180, n_height := 120, n_updatedAt := 9 \<rparr>) = 120"
  using resize_clamped [of 2 StickyNote_initial
      "noteA\<lparr> n_width := 180, n_height := 120, n_updatedAt := 9 \<rparr>" 9 stateABC
      "\<lparr> clientX = - 900, clientY = - 900, movementX = 0, movementY = 0, button = 0 \<rparr>"
      noteA
      "\<lparr> clientX = 100, clientY = 100, movementX = 0, movementY = 0, button = 0 \<rparr>"]
  by (simp add: StickyNote_initial_def handleMouseMove_def handleResizeStart_def updateNote_def
        merge_def noUpdates_def stateABC_def noteA_def lit_def noteB_def noteC_def)

section \<open>Searching\<close>

lemma startsWith_iff: "startsWith s q \<longleftrightarrow> (\<exists>post. s = q @ post)"
  by (induction s q rule: startsWith.induct) auto

lemma includes_iff: "includes_str s q \<longleftrightarrow> (\<exists>pre post. s = pre @ q @ post)"
proof (induction s)
  case Nil
  then show ?case by auto
next
  case (Cons a s)
  show ?case
  proof
    assume "includes_str (a # s) q"
    then consider "startsWith (a # s) q" | "includes_str s q" by auto
    then show "\<exists>pre post. a # s = pre @ q @ post"
    proof cases
      case 1
      then obtain post where "a # s = q @ post" by (auto simp: startsWith_iff)
      then have "a # s = [] @ q @ post" by simp
      then show ?thesis by blast
    next
      case 2
      with Cons.IH obtain pre post where "s = pre @ q @ post" by blast
      then have "a # s = (a # pre) @ q @ post" by simp
      then show ?thesis by blast
    qed
  next
    assume "\<exists>pre post. a # s = pre @ q @ post"
    then obtain pre post where e: "a # s = pre @ q @ post" by blast
    show "includes_str (a # s) q"
    proof (cases pre)
      case Nil
      with e have "startsWith (a # s) q" by (auto simp: startsWith_iff)
      then show ?thesis by simp
    next
      case (Cons b pre')
      with e have "s = pre' @ q @ post" by simp
      with Cons.IH have "includes_str s q" by blast
      then show ?thesis by simp
    qed
  qed
qed

lemma trim_empty: "trim s = [] \<longleftrightarrow> (\<forall>c \<in> set s. isWhiteSpace c)"
proof
  assume "trim s = []"
  then have a: "\<forall>c \<in> set (dropWhile isWhiteSpace s). isWhiteSpace c"
    by (simp add: trim_def dropWhile_eq_Nil_conv)
  have "dropWhile isWhiteSpace s = []"
  proof (rule ccontr)
    assume n: "dropWhile isWhiteSpace s \<noteq> []"
    then have "\<not> isWhiteSpace (hd (dropWhile isWhiteSpace s))" by (rule hd_dropWhile)
    moreover from n have "hd (dropWhile isWhiteSpace s) \<in> set (dropWhile isWhiteSpace s)" by simp
    ultimately show False using a by blast
  qed
  then show "\<forall>c \<in> set s. isWhiteSpace c" by simp
next
  assume "\<forall>c \<in> set s. isWhiteSpace c"
  then have d: "dropWhile isWhiteSpace s = []" by simp
  show "trim s = []" unfolding trim_def d by simp
qed

lemma occursIn_includes: "occursIn q s = includes_str s q"
  by (simp add: occursIn_def includes_iff)

text \<open>
  Claim C10, as stated, fails. A note is titled with the letter A followed by a capital
  sigma and the query is the capital sigma alone: the title contains the query as it
  stands, so whatever the case. \<^verbatim>\<open>toLowerCase\<close> turns the title into a followed by
  the final small sigma and the query into the small sigma, and the canvas displays
  no note.
\<close>

theorem search_final_sigma_counterexample:
  "noteList (hook canvasSigma) = [noteSigma] \<and>
   n_title noteSigma = [0x41, 0x3A3] \<and>
   includes_str (n_title noteSigma) [0x3A3] \<and>
   trim [0x3A3] = [0x3A3] \<and>
   toLowerCase_sample (n_title noteSigma) = [0x61, 0x3C2] \<and>
   toLowerCase_sample [0x3A3] = [0x3C3] \<and>
   displayedNotes toLowerCase_sample (onSearchChange [0x3A3] canvasSigma) = []"
  by (simp add: canvasSigma_def noteSigma_def displayedNotes_def onSearchChange_def
        filteredNotes_def trim_def isWhiteSpace_def toLowerCase_sample_def casedNext_def
        isCased_sample_def isCaseIgnorable_sample_def)

text \<open>
  Claim C10, amended. After the search query is set, the notes the canvas renders are
  all notes of the collection when the query is empty or white space only, and
  otherwise exactly the notes for which the lower-cased query occurs as a substring in
  the lower-cased title or in the lower-cased content, in the order of the collection;
  lower-casing is \<^verbatim>\<open>toLowerCase\<close>, whatever it returns. Setting the query leaves
  the notes hook, and with it the collection, as it is.
\<close>

theorem filteredNotes_lowered:
  "displayedNotes toLowerCase (onSearchChange q st) =
     (if \<forall>c \<in> set q. isWhiteSpace c then noteList (hook st)
      else filter (\<lambda>note. occursIn (toLowerCase q) (toLowerCase (n_title note)) \<or>
                        occursIn (toLowerCase q) (toLowerCase (n_content note)))
             (noteList (hook st))) \<and>
   hook (onSearchChange q st) = hook st"
  by (simp add: displayedNotes_def onSearchChange_def filteredNotes_def trim_empty
        includes_iff occursIn_def Let_def)

theorem filteredNotes_lowered_witness:
  "\<not> isWhiteSpace 0x49 \<and>
   displayedNotes toLowerCase_sample (onSearchChange (lit ''IR'') canvasABC) = [noteA, noteC] \<and>
   isWhiteSpace 0xA0 \<and> isWhiteSpace 0x20 \<and>
   displayedNotes toLowerCase_sample (onSearchChange [0xA0, 0x20] canvasABC) =
     [noteA, noteB, noteC] \<and>
   noteList (hook (onSearchChange (lit ''IR'') canvasABC)) = [noteA, noteB, noteC]"
  using filteredNotes_lowered [of toLowerCase_sample "lit ''IR''" canvasABC]
        filteredNotes_lowered [of toLowerCase_sample "[0xA0, 0x20]" canvasABC]
  by (simp add: displayedNotes_def onSearchChange_def filteredNotes_def trim_def isWhiteSpace_def
        toLowerCase_sample_def casedNext_def isCased_sample_def isCaseIgnorable_sample_def
        occursIn_includes canvasABC_def stateABC_def noteA_def noteB_def noteC_def lit_def)

section \<open>Field names on the wire\<close>

lemma body_same: "createNote_body n = noteObject n"
  by (simp add: createNote_body_def JSON_stringify_def noteObject_def)

lemma mapped_shared:
  "k \<in> set sharedNames \<Longrightarrow> getProp (mappedNote w) k = getProp w k"
  by (auto simp: sharedNames_def mappedNote_def getProp_def)

lemma mapped_renamed:
  "getProp (mappedNote w) ''createdAt'' = getProp w ''created_at'' \<and>
   getProp (mappedNote w) ''updatedAt'' = getProp w ''updated_at''"
  by (simp add: mappedNote_def getProp_def)

text \<open>
  Claim C8, as stated, fails. The body \<^verbatim>\<open>createNote\<close> sends carries the in-memory
  names; read back through the inbound mapping, which looks for \<^verbatim>\<open>created_at\<close> and
  \<^verbatim>\<open>updated_at\<close>, the two timestamps of a note come out undefined.
\<close>

theorem translation_roundtrip_counterexample:
  "getProp (noteObject noteA) ''createdAt'' = JNumber 1 \<and>
   getProp (mappedNote (createNote_body noteA)) ''createdAt'' = JUndefined \<and>
   getProp (noteObject noteA) ''updatedAt'' = JNumber 1 \<and>
   getProp (mappedNote (createNote_body noteA)) ''updatedAt'' = JUndefined \<and>
   mappedNote (createNote_body noteA) \<noteq> noteObject noteA"
  by (simp add: getProp_def noteObject_def mappedNote_def createNote_body_def JSON_stringify_def
        noteA_def lit_def)

text \<open>
  Claim C8, amended. The inbound mapping copies the eight fields id, title, content, x,
  y, width, height and color under their own names and reads \<^verbatim>\<open>createdAt\<close> and
  \<^verbatim>\<open>updatedAt\<close> from \<^verbatim>\<open>created_at\<close> and \<^verbatim>\<open>updated_at\<close>. The body of a create
  request is the in-memory note under its in-memory names, nothing renamed. Sending a
  note out and mapping it back in is the identity on the eight shared fields.
\<close>

theorem translation_one_way:
  "(\<forall>k \<in> set sharedNames. getProp (mappedNote w) k = getProp w k) \<and>
   getProp (mappedNote w) ''createdAt'' = getProp w ''created_at'' \<and>
   getProp (mappedNote w) ''updatedAt'' = getProp w ''updated_at'' \<and>
   createNote_body n = noteObject n \<and>
   (\<forall>k \<in> set sharedNames. getProp (mappedNote (createNote_body n)) k = getProp (noteObject n) k)"
  using mapped_shared mapped_renamed body_same by simp

theorem translation_one_way_witness:
  "''title'' \<in> set sharedNames \<and>
   getProp (mappedNote wireNoteA) ''title'' = JString (lit ''Alpha'') \<and>
   getProp (mappedNote wireNoteA) ''createdAt'' = JNumber 1 \<and>
   getProp (mappedNote wireNoteA) ''updatedAt'' = JNumber 1 \<and>
   mappedNote wireNoteA = noteObject noteA \<and>
   createNote_body noteA = noteObject noteA \<and>
   getProp (mappedNote (createNote_body noteA)) ''title'' = JString (lit ''Alpha'')"
  using translation_one_way [of wireNoteA noteA]
  by (simp add: sharedNames_def getProp_def noteObject_def mappedNote_def wireNoteA_def noteA_def lit_def)

section \<open>Debouncing\<close>

lemma changes_timeoutId [simp]: "changes e (ed\<lparr> timeoutId := t \<rparr>) = changes e ed"
  by (cases e) simp_all

lemma edited_timeoutId: "edited e (ed\<lparr> timeoutId := t \<rparr>) = (edited e ed)\<lparr> timeoutId := t \<rparr>"
  by (cases e) simp_all

lemma autoSave_fields_timeoutId [simp]: "autoSave_fields (ed\<lparr> timeoutId := t \<rparr>) = autoSave_fields ed"
  by (simp add: autoSave_fields_def)

lemma edit_step:
  assumes "selectedNote (canvas st) = Some n" and "changes e (editor st)"
  shows "app_step st e =
           st\<lparr> editor := (edited e (editor st))
                  \<lparr> timeoutId := Some (clock st + 300, n_id n, autoSave_fields (edited e (editor st))) \<rparr> \<rparr>"
  using assms
  by (cases e) (simp_all add: setTitle_def setContent_def setSelectedColor_def
        autoSave_effect_def)

lemma elapse_short:
  assumes "timeoutId (editor st) = Some (due, i, updates)" and "clock st + d < due"
  shows "app_step st (Elapse d) = st\<lparr> clock := clock st + d \<rparr>"
  using assms by simp

lemma elapse_long:
  assumes "timeoutId (editor st) = Some (due, i, updates)" and "due \<le> clock st + d"
  shows "app_step st (Elapse d) =
           st\<lparr> clock := clock st + d,
               editor := (editor st)\<lparr> timeoutId := None \<rparr>,
               canvas := (canvas st)\<lparr> hook := updateNote i updates (real due) (hook (canvas st)) \<rparr> \<rparr>"
  using assms by simp

lemma edit_wait_short:
  assumes "selectedNote (canvas st) = Some n" and "changes e (editor st)" and "d < 300"
  shows "app_step (app_step st e) (Elapse d) =
           st\<lparr> editor := (edited e (editor st))
                  \<lparr> timeoutId := Some (clock st + 300, n_id n, autoSave_fields (edited e (editor st))) \<rparr>,
               clock := clock st + d \<rparr>"
proof -
  let ?s = "st\<lparr> editor := (edited e (editor st))
                  \<lparr> timeoutId := Some (clock st + 300, n_id n, autoSave_fields (edited e (editor st))) \<rparr> \<rparr>"
  have "app_step ?s (Elapse d) = ?s\<lparr> clock := clock ?s + d \<rparr>"
    by (rule elapse_short [where due = "clock st + 300"]) (use assms(3) in simp_all)
  then show ?thesis by (simp add: edit_step [OF assms(1,2)])
qed

lemma edit_wait_long:
  assumes "selectedNote (canvas st) = Some n" and "changes e (editor st)" and "300 \<le> d"
  shows "app_step (app_step st e) (Elapse d) =
           st\<lparr> editor := (edited e (editor st))\<lparr> timeoutId := None \<rparr>,
               clock := clock st + d,
               canvas := (canvas st)
                  \<lparr> hook := updateNote (n_id n) (autoSave_fields (edited e (editor st)))
                              (real (clock st + 300)) (hook (canvas st)) \<rparr> \<rparr>"
proof -
  let ?s = "st\<lparr> editor := (edited e (editor st))
                  \<lparr> timeoutId := Some (clock st + 300, n_id n, autoSave_fields (edited e (editor st))) \<rparr> \<rparr>"
  have "app_step ?s (Elapse d) =
          ?s\<lparr> clock := clock ?s + d,
               editor := (editor ?s)\<lparr> timeoutId := None \<rparr>,
               canvas := (canvas ?s)\<lparr> hook := updateNote (n_id n) (autoSave_fields (edited e (editor st)))
                    (real (clock st + 300)) (hook (canvas ?s)) \<rparr> \<rparr>"
    by (rule elapse_long) (use assms(3) in simp_all)
  then show ?thesis by (simp add: edit_step [OF assms(1,2)])
qed

lemma three_edits:
  assumes n: "selectedNote (canvas st) = Some n"
    and c1: "changes e1 (editor st)" and d1: "d1 < 300"
    and c2: "changes e2 (edited e1 (editor st))" and d2: "d2 < 300"
    and c3: "changes e3 (edited e2 (edited e1 (editor st)))" and d3: "300 \<le> d3"
  shows "hook (canvas (app_run [e1, Elapse d1, e2, Elapse d2, e3, Elapse d3] st)) =
           updateNote (n_id n) (autoSave_fields (edited e3 (edited e2 (edited e1 (editor st)))))
             (real (clock st + d1 + d2 + 300)) (hook (canvas st))"
proof -
  define s1 where "s1 = app_step (app_step st e1) (Elapse d1)"
  define s2 where "s2 = app_step (app_step s1 e2) (Elapse d2)"
  define s3 where "s3 = app_step (app_step s2 e3) (Elapse d3)"
  have r: "app_run [e1, Elapse d1, e2, Elapse d2, e3, Elapse d3] st = s3"
    by (simp add: app_run_def s1_def s2_def s3_def)
  have s1: "s1 = st\<lparr> editor := (edited e1 (editor st))
                  \<lparr> timeoutId := Some (clock st + 300, n_id n, autoSave_fields (edited e1 (editor st))) \<rparr>,
               clock := clock st + d1 \<rparr>"
    unfolding s1_def by (rule edit_wait_short [OF n c1 d1])
  have n1: "selectedNote (canvas s1) = Some n" by (simp add: s1 n)
  have c2': "changes e2 (editor s1)" by (simp add: s1 c2)
  have s2: "s2 = s1\<lparr> editor := (edited e2 (editor s1))
                  \<lparr> timeoutId := Some (clock s1 + 300, n_id n, autoSave_fields (edited e2 (editor s1))) \<rparr>,
               clock := clock s1 + d2 \<rparr>"
    unfolding s2_def by (rule edit_wait_short [OF n1 c2' d2])
  have n2: "selectedNote (canvas s2) = Some n" by (simp add: s2 n1)
  have ed2: "editor s2 = (edited e2 (edited e1 (editor st)))
                  \<lparr> timeoutId := Some (clock s1 + 300, n_id n, autoSave_fields (edited e2 (editor s1))) \<rparr>"
    by (simp add: s2 s1 edited_timeoutId)
  have c3': "changes e3 (editor s2)" by (simp add: ed2 c3)
  have s3: "s3 = s2\<lparr> editor := (edited e3 (editor s2))\<lparr> timeoutId := None \<rparr>,
               clock := clock s2 + d3,
               canvas := (canvas s2)
                  \<lparr> hook := updateNote (n_id n) (autoSave_fields (edited e3 (editor s2)))
                              (real (clock s2 + 300)) (hook (canvas s2)) \<rparr> \<rparr>"
    unfolding s3_def by (rule edit_wait_long [OF n2 c3' d3])
  have "hook (canvas s3) = updateNote (n_id n) (autoSave_fields (edited e3 (editor s2)))
                              (real (clock s2 + 300)) (hook (canvas s2))"
    by (simp add: s3)
  moreover have "hook (canvas s2) = hook (canvas st)" by (simp add: s2 s1)
  moreover have "clock s2 = clock st + d1 + d2" by (simp add: s2 s1)
  moreover have "autoSave_fields (edited e3 (editor s2)) =
                 autoSave_fields (edited e3 (edited e2 (edited e1 (editor st))))"
    by (simp add: ed2 edited_timeoutId)
  ultimately show ?thesis by (simp add: r)
qed

text \<open>
  Claim C1, as stated, fails. Three calls of \<^verbatim>\<open>updateNote\<close> for the same note, one
  millisecond apart, hand three \<^verbatim>\<open>PATCH\<close> requests to \<^verbatim>\<open>fetch\<close>.
\<close>

theorem updateNote_debounce_counterexample:
  "requests (updateNote (lit ''a'') (noUpdates\<lparr>u_title := Some (lit ''abc'')\<rparr>) 2
            (updateNote (lit ''a'') (noUpdates\<lparr>u_title := Some (lit ''ab'')\<rparr>) 1
            (updateNote (lit ''a'') (noUpdates\<lparr>u_title := Some (lit ''a'')\<rparr>) 0 stateABC))) =
     [PATCH (lit ''a'') (noUpdates\<lparr>u_title := Some (lit ''a'')\<rparr>),
      PATCH (lit ''a'') (noUpdates\<lparr>u_title := Some (lit ''ab'')\<rparr>),
      PATCH (lit ''a'') (noUpdates\<lparr>u_title := Some (lit ''abc'')\<rparr>)] \<and>
   length (requests (updateNote (lit ''a'') (noUpdates\<lparr>u_title := Some (lit ''abc'')\<rparr>) 2
            (updateNote (lit ''a'') (noUpdates\<lparr>u_title := Some (lit ''ab'')\<rparr>) 1
            (updateNote (lit ''a'') (noUpdates\<lparr>u_title := Some (lit ''a'')\<rparr>) 0 stateABC)))) \<noteq> 1"
  by (simp add: updateNote_def stateABC_def)

text \<open>
  Claim C1, amended. The update operation does not debounce: every call issues its own
  \<^verbatim>\<open>PATCH\<close> request with the fields of that call. The debounce is the editor's: when
  a note is open in the editor and three edits each change a field, the second and the
  third less than 300 ms after the one before, and 300 ms or more pass after the third,
  then exactly one persistence request is issued in all that time, for that note, and
  it carries the title, content and colour the editor holds after the third edit.
\<close>

theorem editor_debounce:
  assumes "selectedNote (canvas st) = Some n"
    and "changes e1 (editor st)" and "d1 < 300"
    and "changes e2 (edited e1 (editor st))" and "d2 < 300"
    and "changes e3 (edited e2 (edited e1 (editor st)))" and "300 \<le> d3"
  shows "requests (updateNote i u3 t3 (updateNote i u2 t2 (updateNote i u1 t1 hs))) =
           requests hs @ [PATCH i u1, PATCH i u2, PATCH i u3] \<and>
         requests (hook (canvas (app_run [e1, Elapse d1, e2, Elapse d2, e3, Elapse d3] st))) =
           requests (hook (canvas st)) @
             [PATCH (n_id n) (autoSave_fields (edited e3 (edited e2 (edited e1 (editor st)))))]"
  by (simp add: three_edits [OF assms] updateNote_def)

theorem editor_debounce_witness:
  "selectedNote (canvas appA) = Some noteA \<and>
   changes (SetTitle (lit ''Alpha1'')) (editor appA) \<and> (100 :: nat) < 300 \<and>
   changes (SetContent (lit ''x'')) (edited (SetTitle (lit ''Alpha1'')) (editor appA)) \<and> (299 :: nat) < 300 \<and>
   changes (SetSelectedColor pink)
     (edited (SetContent (lit ''x'')) (edited (SetTitle (lit ''Alpha1'')) (editor appA))) \<and>
   (300 :: nat) \<le> 300 \<and>
   requests (hook (canvas (app_run
      [SetTitle (lit ''Alpha1''), Elapse 100, SetContent (lit ''x''), Elapse 299,
       SetSelectedColor pink, Elapse 300] appA))) =
     [PATCH (lit ''a'') (noUpdates\<lparr> u_title := Some (lit ''Alpha1''), u_content := Some (lit ''x''),
                               u_color := Some pink \<rparr>)]"
  using editor_debounce [of appA noteA "SetTitle (lit ''Alpha1'')" 100 "SetContent (lit ''x'')" 299
      "SetSelectedColor pink" 300]
  by (simp add: appA_def canvasABC_def stateABC_def noteA_def lit_def autoSave_fields_def)

end
